theory Spec2Isabelle
  imports Main "HOL-Library.Word"
begin

unbundle bit_operations_syntax

section \<open>Data values and Python's type tests\<close>

text \<open>
  The data tree handed to a validator is a parsed YAML document: null, booleans, integers,
  floats, strings, dates, timestamps, sequences and mappings. A float is carried as the bit
  pattern of its IEEE double, a string as the list of its characters (code points below 256),
  a mapping as its list of key/value pairs in insertion order.
\<close>

datatype "value" =
    VNone
  | VBool bool
  | VInt int
  | VFloat "64 word"
  | VStr string
  | VDate nat nat nat
  | VDatetime nat nat nat nat nat nat
  | VList "value list"
  | VDict "(value \<times> value) list"

text \<open>
  The classes that \<open>isinstance\<close> is asked about in the validators: the concrete class of
  every value, and the two container ABCs \<open>Sequence\<close> and \<open>Mapping\<close>.
\<close>

datatype pytype =
    T_NoneType | T_bool | T_int | T_float | T_str | T_date | T_datetime | T_list | T_dict
  | T_Sequence | T_Mapping

fun type_of :: "value \<Rightarrow> pytype" where
  "type_of VNone = T_NoneType"
| "type_of (VBool b) = T_bool"
| "type_of (VInt i) = T_int"
| "type_of (VFloat f) = T_float"
| "type_of (VStr s) = T_str"
| "type_of (VDate y m d) = T_date"
| "type_of (VDatetime y m d h mi s) = T_datetime"
| "type_of (VList xs) = T_list"
| "type_of (VDict kvs) = T_dict"

text \<open>
  Python's class hierarchy on these classes: \<open>bool\<close> derives from \<open>int\<close>, \<open>datetime\<close> from
  \<open>date\<close>; \<open>list\<close> and \<open>str\<close> are registered as \<open>Sequence\<close>, \<open>dict\<close> as \<open>Mapping\<close>.
\<close>

fun issubclass :: "pytype \<Rightarrow> pytype \<Rightarrow> bool" where
  "issubclass T_bool T_int = True"
| "issubclass T_datetime T_date = True"
| "issubclass T_list T_Sequence = True"
| "issubclass T_str T_Sequence = True"
| "issubclass T_dict T_Mapping = True"
| "issubclass s t = (s = t)"

fun isinstance :: "value \<Rightarrow> pytype list \<Rightarrow> bool" where
  "isinstance v [] = False"
| "isinstance v (t # ts) = (issubclass (type_of v) t \<or> isinstance v ts)"

text \<open>
  Modelled from the spec: \<open>util.isstr\<close> lives in the \<open>util\<close> module, which is not among the
  sources. The \<open>str\<close> validator's type predicate is this test, and the spec has it hold of
  exactly the string values.
\<close>

definition isstr :: "value \<Rightarrow> bool" where
  "isstr v = isinstance v [T_str]"

section \<open>The validators without state\<close>

definition String_is_valid :: "value \<Rightarrow> bool" where
  "String_is_valid v = isstr v"

definition Number_is_valid :: "value \<Rightarrow> bool" where
  "Number_is_valid v = isinstance v [T_int, T_float]"

definition Integer_is_valid :: "value \<Rightarrow> bool" where
  "Integer_is_valid v = isinstance v [T_int]"

definition Boolean_is_valid :: "value \<Rightarrow> bool" where
  "Boolean_is_valid v = isinstance v [T_bool]"

definition Day_is_valid :: "value \<Rightarrow> bool" where
  "Day_is_valid v = isinstance v [T_date]"

definition Timestamp_is_valid :: "value \<Rightarrow> bool" where
  "Timestamp_is_valid v = isinstance v [T_datetime]"


definition List_is_valid :: "value \<Rightarrow> bool" where
  "List_is_valid v = (isinstance v [T_Sequence] \<and> \<not> isstr v)"

definition Null_is_valid :: "value \<Rightarrow> bool" where
  "Null_is_valid v = (v = VNone)"

text \<open>
  \<open>Include\<close> keeps the name of the schema it refers to and an optional \<open>strict\<close> override,
  \<open>Any\<close> its child validators; neither predicate looks at them or at the value.
\<close>

record Include =
  include_name :: string
  strict :: "bool option"

record 'v Any =
  validators :: "'v list"

definition Include_is_valid :: "Include \<Rightarrow> value \<Rightarrow> bool" where
  "Include_is_valid self v = True"

definition Any_is_valid :: "'v Any \<Rightarrow> value \<Rightarrow> bool" where
  "Any_is_valid self v = True"

section \<open>Strings, patterns and conversions used by the Redshift validator\<close>

datatype error = ValueError | AttributeError | KeyError | IndexError | TypeError | ReError

text \<open>
  Character classes of the \<open>re\<close> module on text patterns, for code points below 256:
  \<open>[a-zA-Z]\<close> is the ASCII letters, \<open>\d\<close> the ASCII digits (no other decimal digit lies
  below 256), \<open>\s\<close> Unicode whitespace. The whitespace that \<open>int\<close> strips is smaller: it
  leaves the four separators 28 to 31 alone.
\<close>

definition is_alpha :: "char \<Rightarrow> bool" where
  "is_alpha c = (let n = (of_char c :: nat) in (97 \<le> n \<and> n \<le> 122) \<or> (65 \<le> n \<and> n \<le> 90))"

definition is_digit :: "char \<Rightarrow> bool" where
  "is_digit c = (let n = (of_char c :: nat) in 48 \<le> n \<and> n \<le> 57)"

definition is_space :: "char \<Rightarrow> bool" where
  "is_space c = (let n = (of_char c :: nat) in
     (9 \<le> n \<and> n \<le> 13) \<or> (28 \<le> n \<and> n \<le> 32) \<or> n = 133 \<or> n = 160)"

definition is_int_space :: "char \<Rightarrow> bool" where
  "is_int_space c = (let n = (of_char c :: nat) in
     (9 \<le> n \<and> n \<le> 13) \<or> n = 32 \<or> n = 133 \<or> n = 160)"

definition is_alpha_or_space :: "char \<Rightarrow> bool" where
  "is_alpha_or_space c = (is_alpha c \<or> is_space c)"

text \<open>
  \<open>str.upper\<close>: an ASCII lower-case letter becomes its capital. A character outside ASCII
  is left as it is here; Python maps it to characters outside ASCII or (sharp s) to \<open>SS\<close>,
  and no keyword of the validator contains either, so membership in the keyword lists is
  the same.
\<close>

definition char_upper :: "char \<Rightarrow> char" where
  "char_upper c = (let n = (of_char c :: nat) in if 97 \<le> n \<and> n \<le> 122 then char_of (n - 32) else c)"

definition upper :: "string \<Rightarrow> string" where
  "upper s = map char_upper s"

text \<open>\<open>s.split(sep)\<close> for a one-character separator: never empty, one more item than separators.\<close>

fun split :: "char \<Rightarrow> string \<Rightarrow> string list" where
  "split sep [] = [[]]"
| "split sep (c # cs) =
     (if c = sep then [] # split sep cs
      else (case split sep cs of [] \<Rightarrow> [[c]] | w # ws \<Rightarrow> (c # w) # ws))"

text \<open>\<open>s.replace(" ", "")\<close>\<close>

definition replace_spaces :: "string \<Rightarrow> string" where
  "replace_spaces s = filter (\<lambda>c. c \<noteq> CHR '' '') s"

text \<open>
  \<open>int(s)\<close> in base ten: surrounding whitespace is stripped, one sign may lead, and the
  digits may be separated by single underscores; anything else raises ValueError. So does
  a string of more than \<open>sys.get_int_max_str_digits()\<close> digits, 4300 unless the interpreter
  is set up otherwise (CPython from 3.11 on, and the security releases before it): leading
  zeros count as digits, the sign, the underscores and the whitespace do not.
\<close>

definition int_max_str_digits :: nat where
  "int_max_str_digits = 4300"

definition digit_val :: "char \<Rightarrow> nat" where
  "digit_val c = of_char c - 48"

fun py_digits :: "bool \<Rightarrow> nat \<Rightarrow> string \<Rightarrow> nat option" where
  "py_digits prev acc [] = (if prev then Some acc else None)"
| "py_digits prev acc (c # cs) =
     (if is_digit c then py_digits True (acc * 10 + digit_val c) cs
      else if c = CHR ''_'' \<and> prev then py_digits False acc cs
      else None)"

definition strip :: "string \<Rightarrow> string" where
  "strip s = rev (dropWhile is_int_space (rev (dropWhile is_int_space s)))"

definition py_magnitude :: "string \<Rightarrow> error + nat" where
  "py_magnitude ds =
     (case py_digits False 0 ds of
        None \<Rightarrow> Inl ValueError
      | Some n \<Rightarrow>
          if length (filter is_digit ds) > int_max_str_digits then Inl ValueError else Inr n)"

definition py_int :: "string \<Rightarrow> error + int" where
  "py_int s =
     (case strip s of
        [] \<Rightarrow> Inl ValueError
      | c # cs \<Rightarrow>
          (if c = CHR ''-'' then
             (case py_magnitude cs of Inl e \<Rightarrow> Inl e | Inr n \<Rightarrow> Inr (- int n))
           else if c = CHR ''+'' then
             (case py_magnitude cs of Inl e \<Rightarrow> Inl e | Inr n \<Rightarrow> Inr (int n))
           else
             (case py_magnitude (c # cs) of Inl e \<Rightarrow> Inl e | Inr n \<Rightarrow> Inr (int n))))"

text \<open>\<open>xs[i]\<close> for a non-negative literal index.\<close>

definition index :: "'a list \<Rightarrow> nat \<Rightarrow> error + 'a" where
  "index xs i = (if i < length xs then Inr (xs ! i) else Inl IndexError)"

text \<open>The list comprehension \<open>[int(x) for x in xs]\<close>: the first failing conversion raises.\<close>

fun ints_of :: "string list \<Rightarrow> error + int list" where
  "ints_of [] = Inr []"
| "ints_of (x # xs) =
     (case py_int x of
        Inl e \<Rightarrow> Inl e
      | Inr n \<Rightarrow> (case ints_of xs of Inl e \<Rightarrow> Inl e | Inr ns \<Rightarrow> Inr (n # ns)))"

subsection \<open>The three regular expressions\<close>

text \<open>
  Pieces of a pattern, each taking the text still to be matched and giving what is left
  after it, or None when it does not match there. A greedy \<open>+\<close> over a class takes the
  longest run: in the patterns below the character after such a run must be one outside
  the class, so no shorter run can lead to a match.
\<close>

definition plus_class :: "(char \<Rightarrow> bool) \<Rightarrow> string \<Rightarrow> string option" where
  "plus_class P s = (if takeWhile P s = [] then None else Some (dropWhile P s))"

fun literal :: "string \<Rightarrow> string \<Rightarrow> string option" where
  "literal [] s = Some s"
| "literal (l # ls) [] = None"
| "literal (l # ls) (c # cs) = (if l = c then literal ls cs else None)"

text \<open>
  \<open>re.findall(single_arg_pattern, value)\<close> as a condition, the pattern being
  \<^verbatim>\<open>^[a-zA-Z\s]+\((\d+|MAX)\)\<close>: the list of matches is non-empty exactly when the
  pattern matches at the start of the value.
\<close>

definition findall_single_arg_pattern :: "string \<Rightarrow> bool" where
  "findall_single_arg_pattern v =
     (case plus_class is_alpha_or_space v of
        None \<Rightarrow> False
      | Some r1 \<Rightarrow>
          (case literal ''('' r1 of
             None \<Rightarrow> False
           | Some r2 \<Rightarrow>
               (case plus_class is_digit r2 of
                  None \<Rightarrow> False
                | Some r3 \<Rightarrow> literal '')'' r3 \<noteq> None)
               \<or> literal ''MAX)'' r2 \<noteq> None))"

text \<open>
  \<open>re.findall(multiple_arg_pattern, value)\<close> as a condition, the pattern being
  \<^verbatim>\<open>^[a-zA-Z\s]+\((\d+[,]{1}[ ]?\d+|MAX)\)\<close>. The optional blank is taken when it is
  there: skipping it would leave \<open>\d+\<close> facing the blank.
\<close>

definition findall_multiple_arg_pattern :: "string \<Rightarrow> bool" where
  "findall_multiple_arg_pattern v =
     (case plus_class is_alpha_or_space v of
        None \<Rightarrow> False
      | Some r1 \<Rightarrow>
          (case literal ''('' r1 of
             None \<Rightarrow> False
           | Some r2 \<Rightarrow>
               (case plus_class is_digit r2 of
                  None \<Rightarrow> False
                | Some r3 \<Rightarrow>
                    (case literal '','' r3 of
                       None \<Rightarrow> False
                     | Some r4 \<Rightarrow>
                         (case plus_class is_digit
                                 (case literal '' '' r4 of None \<Rightarrow> r4 | Some r5 \<Rightarrow> r5) of
                            None \<Rightarrow> False
                          | Some r6 \<Rightarrow> literal '')'' r6 \<noteq> None)))
               \<or> literal ''MAX)'' r2 \<noteq> None))"

text \<open>
  \<^verbatim>\<open>re.search(r'\((.*?)\)', value)\<close> and its group 1: from the leftmost opening bracket
  that is followed, before any line feed, by a closing bracket, the text up to the first
  such closing bracket. None when there is no match.
\<close>

fun lazy_group :: "string \<Rightarrow> string option" where
  "lazy_group [] = None"
| "lazy_group (c # cs) =
     (if c = CHR '')'' then Some []
      else if c = CHR 0x0A then None
      else map_option ((#) c) (lazy_group cs))"

fun search_bracket_group :: "string \<Rightarrow> string option" where
  "search_bracket_group [] = None"
| "search_bracket_group (c # cs) =
     (if c = CHR ''(''
      then (case lazy_group cs of Some g \<Rightarrow> Some g | None \<Rightarrow> search_bracket_group cs)
      else search_bracket_group cs)"

section \<open>The Redshift datatype validator\<close>

definition aliases :: "string \<rightharpoonup> string" where
  "aliases = map_of
     [(''CHAR'', ''CHAR''), (''CHARACTER'', ''CHAR''), (''BPCHAR'', ''CHAR''),
      (''NCHAR'', ''CHAR''), (''VARCHAR'', ''VARCHAR''),
      (''CHARACTER VARYING'', ''VARCHAR''), (''NVARCHAR'', ''VARCHAR'')]"

definition str_ranges :: "string \<rightharpoonup> int \<times> int" where
  "str_ranges = map_of [(''CHAR'', (1, 4096)), (''VARCHAR'', (1, 65535))]"

definition num_ranges :: "string \<rightharpoonup> int \<times> int" where
  "num_ranges = map_of [(''PRECISION'', (1, 38)), (''SCALE'', (0, 37))]"

definition one_optional_arg :: "string list" where
  "one_optional_arg =
     [''CHAR'', ''CHARACTER'', ''NCHAR'', ''BPCHAR'', ''VARCHAR'', ''CHARACTER VARYING'',
      ''NVARCHAR'']"

definition two_optional_args :: "string list" where
  "two_optional_args = [''DECIMAL'', ''NUMERIC'']"

definition no_optional_args :: "string list" where
  "no_optional_args =
     [''SMALLINT'', ''INT2'', ''INTEGER'', ''INT'', ''INT4'', ''BIGINT'', ''INT8'', ''REAL'',
      ''FLOAT4'', ''DATE'', ''DOUBLE PRECISION'', ''FLOAT8'', ''FLOAT'', ''BOOLEAN'', ''BOOL'',
      ''TIMESTAMP'', ''TIMESTAMPTZ'', ''TIMESTAMP WITHOUT TIME ZONE'',
      ''TIMESTAMP WITH TIME ZONE'', ''GEOMETRY'', ''TEXT'']"

definition all_args :: "string list" where
  "all_args = one_optional_arg @ two_optional_args @ no_optional_args"

text \<open>\<open>d[k]\<close> on a dictionary: a missing key raises KeyError.\<close>

definition getitem :: "('k \<rightharpoonup> 'v) \<Rightarrow> 'k \<Rightarrow> error + 'v" where
  "getitem d k = (case d k of None \<Rightarrow> Inl KeyError | Some v \<Rightarrow> Inr v)"

definition valid_without_argument :: "string \<Rightarrow> bool" where
  "valid_without_argument v = (upper v \<in> set all_args)"

text \<open>\<open>value.split('(')[0]\<close>\<close>

definition type_of_value :: "string \<Rightarrow> error + string" where
  "type_of_value v = index (split CHR ''('' v) 0"

definition valid_single_argument :: "string \<Rightarrow> error + bool" where
  "valid_single_argument v =
     (if findall_single_arg_pattern v then
        (case type_of_value v of
           Inl e \<Rightarrow> Inl e
         | Inr typ \<Rightarrow>
             (case search_bracket_group v of
                None \<Rightarrow> Inl AttributeError
              | Some g \<Rightarrow>
                  (let arg = replace_spaces g in
                   if typ \<in> set one_optional_arg then
                     (case getitem aliases typ of
                        Inl e \<Rightarrow> Inl e
                      | Inr a \<Rightarrow>
                          (case getitem str_ranges a of
                             Inl e \<Rightarrow> Inl e
                           | Inr valid_range \<Rightarrow>
                               if arg = ''MAX'' then Inr True
                               else
                                 (case py_int arg of
                                    Inl e \<Rightarrow> Inl e
                                  | Inr n \<Rightarrow>
                                      Inr (fst valid_range \<le> n \<and> n \<le> snd valid_range))))
                   else Inr False)))
      else Inr False)"

text \<open>
  \<open>valid_double_argument\<close> returns True or falls off its end, which gives Python's None:
  the result is an optional boolean.
\<close>

definition valid_double_argument :: "string \<Rightarrow> error + bool option" where
  "valid_double_argument v =
     (if findall_multiple_arg_pattern v then
        (case type_of_value v of
           Inl e \<Rightarrow> Inl e
         | Inr typ \<Rightarrow>
             if typ \<in> set two_optional_args then
               (case search_bracket_group v of
                  None \<Rightarrow> Inl AttributeError
                | Some g \<Rightarrow>
                    (case ints_of (split CHR '','' (replace_spaces g)) of
                       Inl e \<Rightarrow> Inl e
                     | Inr args \<Rightarrow>
                         (case getitem num_ranges ''PRECISION'' of
                            Inl e \<Rightarrow> Inl e
                          | Inr pr \<Rightarrow>
                              (case index args 0 of
                                 Inl e \<Rightarrow> Inl e
                               | Inr a0 \<Rightarrow>
                                   (case getitem num_ranges ''SCALE'' of
                                      Inl e \<Rightarrow> Inl e
                                    | Inr sr \<Rightarrow>
                                        (case index args 1 of
                                           Inl e \<Rightarrow> Inl e
                                         | Inr a1 \<Rightarrow>
                                             (let valid_precision = (fst pr \<le> a0 \<and> a0 \<le> snd pr);
                                                  valid_scale = (fst sr \<le> a1 \<and> a1 \<le> snd sr)
                                              in if valid_precision \<and> valid_scale \<and> a0 > a1
                                                 then Inr (Some True) else Inr None)))))))
             else Inr None)
      else Inr None)"

text \<open>Truth value of what \<open>valid_double_argument\<close> returns: None counts as false.\<close>

fun truthy :: "bool option \<Rightarrow> bool" where
  "truthy None = False"
| "truthy (Some b) = b"

text \<open>
  The predicate itself. A value that is not a \<open>str\<close> is rejected at once. Otherwise the
  list handed to \<open>any\<close> is built first, so the three tests all run, in order, and the first
  exception among them is the outcome. (The last branch is never reached: only a \<open>str\<close> gets
  past the test, and \<open>upper\<close> on anything else would be an AttributeError.)
\<close>

definition RedshiftDatatype_is_valid :: "value \<Rightarrow> error + bool" where
  "RedshiftDatatype_is_valid val =
     (if \<not> isinstance val [T_str] then Inr False
      else
        (case val of
           VStr v \<Rightarrow>
             (let a = valid_without_argument v in
              case valid_single_argument v of
                Inl e \<Rightarrow> Inl e
              | Inr b \<Rightarrow>
                  (case valid_double_argument v of
                     Inl e \<Rightarrow> Inl e
                   | Inr c \<Rightarrow> Inr (a \<or> b \<or> truthy c)))
         | _ \<Rightarrow> Inl AttributeError))"

subsection \<open>Decimal notation\<close>

text \<open>
  A datatype string such as \<open>DECIMAL(10,5)\<close> carries its numbers in decimal:
  \<open>str_of_nat\<close> writes a number as Python's \<open>str\<close> does, and \<open>decimal\<close> is the number that
  a string of digits denotes.
\<close>

definition digit_char :: "nat \<Rightarrow> char" where
  "digit_char d = char_of (48 + d)"

fun str_of_nat :: "nat \<Rightarrow> string" where
  "str_of_nat n =
     (if n < 10 then [digit_char n] else str_of_nat (n div 10) @ [digit_char (n mod 10)])"

declare str_of_nat.simps [simp del]

definition decimal :: "string \<Rightarrow> nat" where
  "decimal ds = foldl (\<lambda>a c. a * 10 + digit_val c) 0 ds"

section \<open>The regex validator\<close>

text \<open>
  Truth value of a data value, as \<open>bool(v)\<close> and every \<open>if v\<close> take it: null, False, zero
  (of either sign, for a float), and the empty string, list and mapping are false.
\<close>

fun truth :: "value \<Rightarrow> bool" where
  "truth VNone = False"
| "truth (VBool b) = b"
| "truth (VInt i) = (i \<noteq> 0)"
| "truth (VFloat f) = (f AND 0x7FFFFFFFFFFFFFFF \<noteq> 0)"
| "truth (VStr s) = (s \<noteq> [])"
| "truth (VDate y m d) = True"
| "truth (VDatetime y m d h mi s) = True"
| "truth (VList xs) = (xs \<noteq> [])"
| "truth (VDict kvs) = (kvs \<noteq> [])"

text \<open>
  A compiled pattern keeps its source and the flags it was compiled with. The \<open>re\<close> module
  is a library: which sources it accepts (\<open>valid_re\<close>) and which strings a compiled pattern
  matches at their start (\<open>re_match\<close>) are parameters below.
\<close>

record compiled =
  pattern :: string
  flags :: int

definition re_I :: int where "re_I = 2"
definition re_M :: int where "re_M = 8"
definition re_S :: int where "re_S = 16"

definition regex_flags :: "(string \<times> int) list" where
  "regex_flags = [(''ignore_case'', re_I), (''multiline'', re_M), (''dotall'', re_S)]"

definition re_compile :: "(string \<Rightarrow> bool) \<Rightarrow> string \<Rightarrow> int \<Rightarrow> error + compiled" where
  "re_compile valid_re pat fl =
     (if valid_re pat then Inr \<lparr>pattern = pat, flags = fl\<rparr> else Inl ReError)"

text \<open>\<open>kwargs.pop(k, default)\<close>: the value under the key, which is removed, or the default.\<close>

definition pop :: "(string \<rightharpoonup> value) \<Rightarrow> string \<Rightarrow> value \<Rightarrow> value \<times> (string \<rightharpoonup> value)" where
  "pop kwargs k d = (case kwargs k of None \<Rightarrow> (d, kwargs) | Some v \<Rightarrow> (v, kwargs(k := None)))"

text \<open>The loop over the flag table: \<open>flags |= v if kwargs.pop(k, False) else 0\<close>.\<close>

fun flags_loop ::
  "(string \<times> int) list \<Rightarrow> int \<Rightarrow> (string \<rightharpoonup> value) \<Rightarrow> int \<times> (string \<rightharpoonup> value)" where
  "flags_loop [] fl kwargs = (fl, kwargs)"
| "flags_loop ((k, v) # rest) fl kwargs =
     (case pop kwargs k (VBool False) of
        (x, kwargs') \<Rightarrow> flags_loop rest (fl OR (if truth x then v else 0)) kwargs')"

text \<open>
  \<open>[re.compile(arg, flags) for arg in args if util.isstr(arg)]\<close>: the arguments that are
  not strings are skipped; a source that \<open>re\<close> rejects raises.
\<close>

fun compile_all :: "(string \<Rightarrow> bool) \<Rightarrow> int \<Rightarrow> value list \<Rightarrow> error + compiled list" where
  "compile_all valid_re fl [] = Inr []"
| "compile_all valid_re fl (arg # args) =
     (if isstr arg then
        (case arg of
           VStr s \<Rightarrow>
             (case re_compile valid_re s fl of
                Inl e \<Rightarrow> Inl e
              | Inr r \<Rightarrow>
                  (case compile_all valid_re fl args of
                     Inl e \<Rightarrow> Inl e
                   | Inr rs \<Rightarrow> Inr (r # rs)))
         | _ \<Rightarrow> Inl TypeError)
      else compile_all valid_re fl args)"

record Regex =
  regex_name :: "value"
  regexes :: "compiled list"

text \<open>
  The initialiser. The keyword arguments left after the pops go on to the initialiser of
  the base class, which is not among the sources and does not set \<open>regexes\<close>; they are
  returned beside the instance.
\<close>

definition Regex_init ::
  "(string \<Rightarrow> bool) \<Rightarrow> value list \<Rightarrow> (string \<rightharpoonup> value) \<Rightarrow> error + Regex \<times> (string \<rightharpoonup> value)" where
  "Regex_init valid_re args kwargs =
     (case pop kwargs ''name'' VNone of
        (nm, kwargs1) \<Rightarrow>
          (case flags_loop regex_flags 0 kwargs1 of
             (fl, kwargs2) \<Rightarrow>
               (case compile_all valid_re fl args of
                  Inl e \<Rightarrow> Inl e
                | Inr rs \<Rightarrow> Inr (\<lparr>regex_name = nm, regexes = rs\<rparr>, kwargs2))))"

text \<open>\<open>any(r.match(value) for r in rs)\<close>: the generator stops at the first match.\<close>

fun any_match :: "(compiled \<Rightarrow> string \<Rightarrow> bool) \<Rightarrow> compiled list \<Rightarrow> string \<Rightarrow> bool" where
  "any_match re_match [] s = False"
| "any_match re_match (r # rs) s = (if re_match r s then True else any_match re_match rs s)"

definition Regex_is_valid :: "(compiled \<Rightarrow> string \<Rightarrow> bool) \<Rightarrow> Regex \<Rightarrow> value \<Rightarrow> bool" where
  "Regex_is_valid re_match self v =
     (isstr v \<and> (case v of VStr s \<Rightarrow> any_match re_match (regexes self) s | _ \<Rightarrow> False))"

text \<open>Whether a keyword option was given a true value at construction.\<close>

definition option_set :: "(string \<rightharpoonup> value) \<Rightarrow> string \<Rightarrow> bool" where
  "option_set kwargs k = (case kwargs k of None \<Rightarrow> False | Some x \<Rightarrow> truth x)"

section \<open>Reading data and validating it\<close>

text \<open>
  \<open>make_data\<close>: \<open>readers.parse_file\<close> is not among the sources and reads a file, so it is a
  parameter; it gives the list of parsed documents or raises.
\<close>

definition make_data ::
  "(string \<Rightarrow> string \<Rightarrow> 'x + value list) \<Rightarrow> string \<Rightarrow> string \<Rightarrow> value
   \<Rightarrow> 'x + (value \<times> string) list" where
  "make_data parse_file path parser raw_data_arg =
     (case (if truth raw_data_arg then Inr [raw_data_arg] else parse_file path parser) of
        Inl e \<Rightarrow> Inl e
      | Inr raw_data \<Rightarrow>
          if length raw_data = 0 then Inr [(VDict [], path)]
          else Inr (map (\<lambda>d. (d, path)) raw_data))"







section \<open>The registry of built-in validators\<close>

datatype cls =
    Cls_Validator
  | Cls_String | Cls_Number | Cls_Integer | Cls_Boolean | Cls_Enum | Cls_Day | Cls_Timestamp
  | Cls_Map | Cls_RedshiftDatatype | Cls_List | Cls_Include | Cls_Any | Cls_Null | Cls_Regex
  | Cls_Ip | Cls_Mac

text \<open>The classes of the module in the order of their definition, with their base class.\<close>

definition module_classes :: "cls list" where
  "module_classes =
     [Cls_String, Cls_Number, Cls_Integer, Cls_Boolean, Cls_Enum, Cls_Day, Cls_Timestamp,
      Cls_Map, Cls_RedshiftDatatype, Cls_List, Cls_Include, Cls_Any, Cls_Null, Cls_Regex,
      Cls_Ip, Cls_Mac]"

fun base :: "cls \<Rightarrow> cls option" where
  "base Cls_Validator = None"
| "base Cls_Mac = Some Cls_Regex"
| "base c = Some Cls_Validator"

text \<open>The class attribute \<open>tag\<close>; \<open>Mac\<close> overrides the one it inherits from \<open>Regex\<close>.\<close>

fun tag :: "cls \<Rightarrow> string option" where
  "tag Cls_Validator = None"
| "tag Cls_String = Some ''str''"
| "tag Cls_Number = Some ''num''"
| "tag Cls_Integer = Some ''int''"
| "tag Cls_Boolean = Some ''bool''"
| "tag Cls_Enum = Some ''enum''"
| "tag Cls_Day = Some ''day''"
| "tag Cls_Timestamp = Some ''timestamp''"
| "tag Cls_Map = Some ''map''"
| "tag Cls_RedshiftDatatype = Some ''redshift_datatype''"
| "tag Cls_List = Some ''list''"
| "tag Cls_Include = Some ''include''"
| "tag Cls_Any = Some ''any''"
| "tag Cls_Null = Some ''null''"
| "tag Cls_Regex = Some ''regex''"
| "tag Cls_Ip = Some ''ip''"
| "tag Cls_Mac = Some ''mac''"

text \<open>\<open>__name__\<close>\<close>

fun name :: "cls \<Rightarrow> string" where
  "name Cls_Validator = ''Validator''"
| "name Cls_String = ''String''"
| "name Cls_Number = ''Number''"
| "name Cls_Integer = ''Integer''"
| "name Cls_Boolean = ''Boolean''"
| "name Cls_Enum = ''Enum''"
| "name Cls_Day = ''Day''"
| "name Cls_Timestamp = ''Timestamp''"
| "name Cls_Map = ''Map''"
| "name Cls_RedshiftDatatype = ''RedshiftDatatype''"
| "name Cls_List = ''List''"
| "name Cls_Include = ''Include''"
| "name Cls_Any = ''Any''"
| "name Cls_Null = ''Null''"
| "name Cls_Regex = ''Regex''"
| "name Cls_Ip = ''Ip''"
| "name Cls_Mac = ''Mac''"

text \<open>
  The loop that fills the registry, over whatever list of classes it is given: for each
  class, the entry under its tag and then the entry under its name; a later entry replaces
  an earlier one under the same key. Reading \<open>v.tag\<close> on a class without one raises.
\<close>

fun registry_loop :: "cls list \<Rightarrow> (string \<rightharpoonup> cls) \<Rightarrow> error + (string \<rightharpoonup> cls)" where
  "registry_loop [] reg = Inr reg"
| "registry_loop (v # vs) reg =
     (case tag v of
        None \<Rightarrow> Inl AttributeError
      | Some t \<Rightarrow> registry_loop vs ((reg(t \<mapsto> v))(name v \<mapsto> v)))"

text \<open>
  Modelled from the spec: \<open>util.get_subclasses\<close> is not among the sources. The spec has the
  table built by scanning all loaded subclasses of the base class, so it yields every class
  below the given one: each direct subclass, followed by the subclasses of that one. The
  depth of the search is bounded by the number of classes.
\<close>

definition direct_subclasses :: "cls \<Rightarrow> cls list" where
  "direct_subclasses c = filter (\<lambda>d. base d = Some c) module_classes"

fun subclasses_upto :: "nat \<Rightarrow> cls \<Rightarrow> cls list" where
  "subclasses_upto 0 c = []"
| "subclasses_upto (Suc n) c =
     concat (map (\<lambda>d. d # subclasses_upto n d) (direct_subclasses c))"

definition get_subclasses :: "cls \<Rightarrow> cls list" where
  "get_subclasses c = subclasses_upto (length module_classes) c"

definition DefaultValidators :: "error + (string \<rightharpoonup> cls)" where
  "DefaultValidators = registry_loop (get_subclasses Cls_Validator) Map.empty"

text \<open>A registry in which every entry sits under the tag or the name of its class.\<close>

definition keyed :: "(string \<rightharpoonup> cls) \<Rightarrow> bool" where
  "keyed reg = (\<forall>k v. reg k = Some v \<longrightarrow> tag v = Some k \<or> name v = k)"

section \<open>Lemmas on strings and patterns\<close>

lemma digit_not_others:
  "is_digit c \<Longrightarrow> \<not> is_alpha_or_space c \<and> \<not> is_int_space c \<and> c \<noteq> CHR ''('' \<and> c \<noteq> CHR '')''
     \<and> c \<noteq> CHR '','' \<and> c \<noteq> CHR '' '' \<and> c \<noteq> CHR 0x0A \<and> c \<noteq> CHR ''M'' \<and> c \<noteq> CHR ''_''
     \<and> c \<noteq> CHR ''+'' \<and> c \<noteq> CHR ''-''"
  by (auto simp: is_digit_def is_alpha_or_space_def is_alpha_def is_space_def is_int_space_def Let_def)

lemma plus_class_run:
  "ds \<noteq> [] \<Longrightarrow> list_all P ds \<Longrightarrow> \<not> P x \<Longrightarrow> plus_class P (ds @ x # r) = Some (x # r)"
  by (cases ds) (auto simp: plus_class_def list_all_iff takeWhile_append2 dropWhile_append2 dropWhile_append3)

lemma py_digits_run:
  "list_all is_digit ds \<Longrightarrow> (prev \<or> ds \<noteq> []) \<Longrightarrow>
   py_digits prev acc ds = Some (foldl (\<lambda>a c. a * 10 + digit_val c) acc ds)"
  by (induction ds arbitrary: prev acc) auto

lemma strip_digits: "ds \<noteq> [] \<Longrightarrow> list_all is_digit ds \<Longrightarrow> strip ds = ds"
proof -
  assume ne: "ds \<noteq> []" and dig: "list_all is_digit ds"
  from ne dig have "is_digit (hd ds)" and "is_digit (last ds)"
    by (simp_all add: list_all_iff)
  then have "\<not> is_int_space (hd ds)" and "\<not> is_int_space (last ds)"
    by (simp_all add: digit_not_others)
  with ne have a: "dropWhile is_int_space ds = ds"
    and b: "dropWhile is_int_space (rev ds) = rev ds"
    by (simp_all add: dropWhile_eq_self_iff hd_rev)
  show "strip ds = ds"
    by (simp add: strip_def a b)
qed

lemma lazy_group_run:
  "CHR '')'' \<notin> set g \<Longrightarrow> CHR 0x0A \<notin> set g \<Longrightarrow> lazy_group (g @ CHR '')'' # r) = Some g"
  by (induction g) auto

lemma split_none: "sep \<notin> set xs \<Longrightarrow> split sep xs = [xs]"
  by (induction xs) auto

lemma split_at: "sep \<notin> set ps \<Longrightarrow> split sep (ps @ sep # r) = ps # split sep r"
  by (induction ps) auto

lemma digit_char_digit: "d < 10 \<Longrightarrow> is_digit (digit_char d) \<and> digit_val (digit_char d) = d"
  by (simp add: is_digit_def digit_char_def digit_val_def)

lemma str_of_nat_digits: "list_all is_digit (str_of_nat n) \<and> str_of_nat n \<noteq> []"
proof (induction n rule: str_of_nat.induct)
  case (1 n)
  show ?case
  proof (cases "n < 10")
    case True
    then show ?thesis by (simp add: str_of_nat.simps [of n] digit_char_digit)
  next
    case False
    with 1 show ?thesis by (simp add: str_of_nat.simps [of n] digit_char_digit)
  qed
qed

lemma decimal_snoc: "decimal (ds @ [c]) = decimal ds * 10 + digit_val c"
  by (simp add: decimal_def)

lemma decimal_str_of_nat: "decimal (str_of_nat n) = n"
proof (induction n rule: str_of_nat.induct)
  case (1 n)
  show ?case
  proof (cases "n < 10")
    case True
    then show ?thesis by (simp add: str_of_nat.simps [of n] digit_char_digit decimal_def)
  next
    case False
    with 1 show ?thesis by (simp add: str_of_nat.simps [of n] digit_char_digit decimal_snoc)
  qed
qed

lemma py_int_digits:
  assumes "ds \<noteq> []" and "list_all is_digit ds"
  shows "py_int ds
         = (if length ds \<le> int_max_str_digits then Inr (int (decimal ds)) else Inl ValueError)"
proof -
  from assms obtain c cs where ds: "ds = c # cs" by (cases ds) auto
  with assms have "is_digit c" by simp
  then have c: "c \<noteq> CHR ''-''" "c \<noteq> CHR ''+''" by (simp_all add: digit_not_others)
  have "py_digits False 0 ds = Some (decimal ds)"
    using assms by (simp add: py_digits_run decimal_def)
  moreover have "filter is_digit ds = ds"
    using assms(2) by (simp add: filter_id_conv list_all_iff)
  ultimately have "py_magnitude ds
      = (if length ds \<le> int_max_str_digits then Inr (decimal ds) else Inl ValueError)"
    by (simp add: py_magnitude_def)
  then have m: "py_magnitude (c # cs)
      = (if length (c # cs) \<le> int_max_str_digits then Inr (decimal (c # cs)) else Inl ValueError)"
    by (simp only: ds)
  from strip_digits [OF assms] have st: "strip (c # cs) = c # cs"
    by (simp only: ds)
  show ?thesis
    unfolding ds py_int_def st using c by (simp add: m)
qed

lemma str_of_nat_length: "0 < k \<Longrightarrow> n < 10 ^ k \<Longrightarrow> length (str_of_nat n) \<le> k"
proof (induction n arbitrary: k rule: str_of_nat.induct)
  case (1 n)
  show ?case
  proof (cases "n < 10")
    case True
    with 1(2) show ?thesis by (simp add: str_of_nat.simps [of n])
  next
    case False
    from 1(2) obtain j where k: "k = Suc j" by (cases k) auto
    from False 1(3) k have "0 < j" by (cases j) auto
    moreover from 1(3) k have "n div 10 < 10 ^ j"
      by (simp add: div_less_iff_less_mult mult.commute)
    ultimately have "length (str_of_nat (n div 10)) \<le> j"
      using 1(1) [OF False] by simp
    with False k show ?thesis by (simp add: str_of_nat.simps [of n])
  qed
qed

lemma alpha_space_not_bracket: "is_alpha_or_space c \<Longrightarrow> c \<noteq> CHR ''(''"
  by (auto simp: is_alpha_or_space_def is_alpha_def is_space_def Let_def)

lemma keyword_no_bracket: "w \<in> set all_args \<Longrightarrow> CHR ''('' \<notin> set w"
  by (auto simp: all_args_def one_optional_arg_def two_optional_args_def no_optional_args_def)

lemma without_argument_bracket: "CHR ''('' \<in> set v \<Longrightarrow> valid_without_argument v = False"
proof -
  assume "CHR ''('' \<in> set v"
  then have "char_upper CHR ''('' \<in> set (upper v)" by (simp add: upper_def)
  then have "CHR ''('' \<in> set (upper v)" by (simp add: char_upper_def)
  then show ?thesis using keyword_no_bracket [of "upper v"]
    by (auto simp: valid_without_argument_def)
qed

lemma type_of_value_prefix:
  "list_all is_alpha_or_space k \<Longrightarrow> type_of_value (k @ CHR ''('' # r) = Inr k"
proof -
  assume "list_all is_alpha_or_space k"
  then have "CHR ''('' \<notin> set k" using alpha_space_not_bracket by (auto simp: list_all_iff)
  then show ?thesis by (simp add: type_of_value_def split_at index_def)
qed

lemma search_bracket_group_prefix:
  "list_all is_alpha_or_space k \<Longrightarrow> CHR '')'' \<notin> set g \<Longrightarrow> CHR 0x0A \<notin> set g \<Longrightarrow>
   search_bracket_group (k @ CHR ''('' # g @ CHR '')'' # r) = Some g"
proof (induction k)
  case Nil
  then show ?case by (simp add: lazy_group_run)
next
  case (Cons c k)
  then show ?case using alpha_space_not_bracket [of c] by simp
qed

lemma literal_one: "literal [l] (c # cs) = (if l = c then Some cs else None)"
  by simp

lemma multiple_pattern_two_args:
  assumes "k \<noteq> []" "list_all is_alpha_or_space k"
    and "ps \<noteq> []" "list_all is_digit ps" and "ss \<noteq> []" "list_all is_digit ss"
  shows "findall_multiple_arg_pattern (k @ CHR ''('' # ps @ CHR '','' # ss @ CHR '')'' # r)"
proof -
  have a: "plus_class is_alpha_or_space (k @ CHR ''('' # ps @ CHR '','' # ss @ CHR '')'' # r)
           = Some (CHR ''('' # ps @ CHR '','' # ss @ CHR '')'' # r)"
    using assms(1,2) by (intro plus_class_run) (auto dest: alpha_space_not_bracket)
  have b: "plus_class is_digit (ps @ CHR '','' # ss @ CHR '')'' # r) = Some (CHR '','' # ss @ CHR '')'' # r)"
    using assms(3,4) by (intro plus_class_run) (auto dest: digit_not_others)
  from assms(5,6) obtain c cs where ss: "ss = c # cs" and c: "is_digit c" by (cases ss) auto
  from c have sp: "c \<noteq> CHR '' ''" by (simp add: digit_not_others)
  have d: "plus_class is_digit (ss @ CHR '')'' # r) = Some (CHR '')'' # r)"
    using assms(5,6) by (intro plus_class_run) (auto dest: digit_not_others)
  have e: "literal '' '' (ss @ CHR '')'' # r) = None"
    using sp by (simp add: ss)
  show ?thesis
    by (simp add: findall_multiple_arg_pattern_def a b d e)
qed

lemma single_pattern_two_args:
  assumes "k \<noteq> []" "list_all is_alpha_or_space k"
    and "ps \<noteq> []" "list_all is_digit ps"
  shows "\<not> findall_single_arg_pattern (k @ CHR ''('' # ps @ CHR '','' # r)"
proof -
  have a: "plus_class is_alpha_or_space (k @ CHR ''('' # ps @ CHR '','' # r)
           = Some (CHR ''('' # ps @ CHR '','' # r)"
    using assms(1,2) by (intro plus_class_run) (auto dest: alpha_space_not_bracket)
  have b: "plus_class is_digit (ps @ CHR '','' # r) = Some (CHR '','' # r)"
    using assms(3,4) by (intro plus_class_run) (auto dest: digit_not_others)
  from assms(3,4) obtain c cs where ps: "ps = c # cs" and c: "is_digit c" by (cases ps) auto
  from c have m: "c \<noteq> CHR ''M''" by (simp add: digit_not_others)
  have e: "literal ''MAX)'' (ps @ CHR '','' # r) = None"
    using m by (auto simp add: ps)
  show ?thesis
    by (simp add: findall_single_arg_pattern_def a b e)
qed

lemma two_args_ints:
  assumes "ps \<noteq> []" "list_all is_digit ps" and "ss \<noteq> []" "list_all is_digit ss"
  shows "ints_of (split CHR '','' (replace_spaces (ps @ CHR '','' # ss)))
         = (if length ps \<le> int_max_str_digits \<and> length ss \<le> int_max_str_digits
            then Inr [int (decimal ps), int (decimal ss)] else Inl ValueError)"
proof -
  have "CHR '' '' \<notin> set ps" "CHR '' '' \<notin> set ss" "CHR '','' \<notin> set ps" "CHR '','' \<notin> set ss"
    using assms(2,4) digit_not_others by (auto simp: list_all_iff)
  then have "split CHR '','' (replace_spaces (ps @ CHR '','' # ss)) = [ps, ss]"
    by (auto simp add: replace_spaces_def split_at split_none filter_id_conv)
  then show ?thesis
    by (simp add: py_int_digits assms)
qed

lemma two_arguments_digits:
  assumes "k \<in> set two_optional_args"
    and "ps \<noteq> []" "list_all is_digit ps" and "ss \<noteq> []" "list_all is_digit ss"
  shows "RedshiftDatatype_is_valid (VStr (k @ CHR ''('' # ps @ CHR '','' # ss @ '')''))
         = (if length ps \<le> int_max_str_digits \<and> length ss \<le> int_max_str_digits
            then Inr (1 \<le> decimal ps \<and> decimal ps \<le> 38 \<and> decimal ss \<le> 37
                      \<and> decimal ss < decimal ps)
            else Inl ValueError)"
proof -
  let ?v = "k @ CHR ''('' # ps @ CHR '','' # ss @ '')''"
  from assms(1) have k: "k \<noteq> []" "list_all is_alpha_or_space k"
    by (auto simp: two_optional_args_def is_alpha_or_space_def is_alpha_def)
  have g: "CHR '')'' \<notin> set (ps @ CHR '','' # ss)" "CHR 0x0A \<notin> set (ps @ CHR '','' # ss)"
    using assms(3,5) digit_not_others by (auto simp: list_all_iff)
  have w: "valid_without_argument ?v = False"
    by (rule without_argument_bracket) simp
  have s: "valid_single_argument ?v = Inr False"
    using single_pattern_two_args [OF k assms(2,3)] by (simp add: valid_single_argument_def)
  have m: "findall_multiple_arg_pattern ?v"
    using multiple_pattern_two_args [OF k assms(2-5)] by simp
  have t: "type_of_value ?v = Inr k"
    by (rule type_of_value_prefix [OF k(2)])
  have b: "search_bracket_group ?v = Some (ps @ CHR '','' # ss)"
    using search_bracket_group_prefix [OF k(2) g, of "[]"] by simp
  have d: "valid_double_argument ?v
           = (if length ps \<le> int_max_str_digits \<and> length ss \<le> int_max_str_digits
              then Inr (if 1 \<le> decimal ps \<and> decimal ps \<le> 38 \<and> decimal ss \<le> 37
                           \<and> decimal ss < decimal ps
                        then Some True else None)
              else Inl ValueError)"
    using assms(1)
    by (simp add: valid_double_argument_def m t b two_args_ints [OF assms(2-5)]
        getitem_def num_ranges_def index_def)
  show ?thesis
    by (simp add: RedshiftDatatype_is_valid_def w s d)
qed

lemma single_pattern_one_arg:
  assumes "k \<noteq> []" "list_all is_alpha_or_space k" and "ds \<noteq> []" "list_all is_digit ds"
  shows "findall_single_arg_pattern (k @ CHR ''('' # ds @ CHR '')'' # r)"
proof -
  have a: "plus_class is_alpha_or_space (k @ CHR ''('' # ds @ CHR '')'' # r)
           = Some (CHR ''('' # ds @ CHR '')'' # r)"
    using assms(1,2) by (intro plus_class_run) (auto dest: alpha_space_not_bracket)
  have b: "plus_class is_digit (ds @ CHR '')'' # r) = Some (CHR '')'' # r)"
    using assms(3,4) by (intro plus_class_run) (auto dest: digit_not_others)
  show ?thesis
    by (simp add: findall_single_arg_pattern_def a b)
qed

lemma multiple_pattern_one_arg:
  assumes "k \<noteq> []" "list_all is_alpha_or_space k" and "ds \<noteq> []" "list_all is_digit ds"
  shows "\<not> findall_multiple_arg_pattern (k @ CHR ''('' # ds @ CHR '')'' # r)"
proof -
  have a: "plus_class is_alpha_or_space (k @ CHR ''('' # ds @ CHR '')'' # r)
           = Some (CHR ''('' # ds @ CHR '')'' # r)"
    using assms(1,2) by (intro plus_class_run) (auto dest: alpha_space_not_bracket)
  have b: "plus_class is_digit (ds @ CHR '')'' # r) = Some (CHR '')'' # r)"
    using assms(3,4) by (intro plus_class_run) (auto dest: digit_not_others)
  from assms(3,4) obtain c cs where ds: "ds = c # cs" and c: "is_digit c" by (cases ds) auto
  from c have m: "c \<noteq> CHR ''M''" by (simp add: digit_not_others)
  have e: "literal ''MAX)'' (ds @ CHR '')'' # r) = None"
    using m by (auto simp add: ds)
  show ?thesis
    by (simp add: findall_multiple_arg_pattern_def a b e)
qed

lemma patterns_max:
  assumes "k \<noteq> []" "list_all is_alpha_or_space k"
  shows "findall_single_arg_pattern (k @ ''(MAX)'') \<and> findall_multiple_arg_pattern (k @ ''(MAX)'')"
proof -
  have a: "plus_class is_alpha_or_space (k @ CHR ''('' # ''MAX)'') = Some (CHR ''('' # ''MAX)'')"
    using assms by (intro plus_class_run) (auto dest: alpha_space_not_bracket)
  have b: "plus_class is_digit ''MAX)'' = None"
    by (simp add: plus_class_def is_digit_def)
  show ?thesis
    using a by (simp add: findall_single_arg_pattern_def findall_multiple_arg_pattern_def b)
qed

lemma one_optional_arg_shape:
  "k \<in> set one_optional_arg \<Longrightarrow> k \<noteq> [] \<and> list_all is_alpha_or_space k \<and> k \<notin> set two_optional_args"
  by (auto simp: one_optional_arg_def two_optional_args_def is_alpha_or_space_def is_alpha_def is_space_def)

lemma one_argument_digits:
  assumes "k \<in> set one_optional_arg" and "ds \<noteq> []" "list_all is_digit ds"
    and "aliases k = Some a" and "str_ranges a = Some (lo, hi)"
  shows "RedshiftDatatype_is_valid (VStr (k @ CHR ''('' # ds @ '')''))
         = (if length ds \<le> int_max_str_digits
            then Inr (lo \<le> int (decimal ds) \<and> int (decimal ds) \<le> hi)
            else Inl ValueError)"
proof -
  let ?v = "k @ CHR ''('' # ds @ '')''"
  from assms(1) have k: "k \<noteq> []" "list_all is_alpha_or_space k" "k \<notin> set two_optional_args"
    by (simp_all add: one_optional_arg_shape)
  have g: "CHR '')'' \<notin> set ds" "CHR 0x0A \<notin> set ds" "CHR '' '' \<notin> set ds"
    using assms(3) digit_not_others by (auto simp: list_all_iff)
  from assms(2,3) obtain c cs where ds: "ds = c # cs" and c: "is_digit c" by (cases ds) auto
  from c have "c \<noteq> CHR ''M''" by (simp add: digit_not_others)
  then have nm: "ds \<noteq> ''MAX''" by (auto simp: ds)
  have w: "valid_without_argument ?v = False"
    by (rule without_argument_bracket) simp
  have m: "\<not> findall_multiple_arg_pattern ?v"
    using multiple_pattern_one_arg [OF k(1,2) assms(2,3), of "[]"] by simp
  have d: "valid_double_argument ?v = Inr None"
    using m by (simp add: valid_double_argument_def)
  have p: "findall_single_arg_pattern ?v"
    using single_pattern_one_arg [OF k(1,2) assms(2,3), of "[]"] by simp
  have t: "type_of_value ?v = Inr k"
    by (rule type_of_value_prefix [OF k(2)])
  have b: "search_bracket_group ?v = Some ds"
    using search_bracket_group_prefix [OF k(2) g(1,2), of "[]"] by simp
  have r: "replace_spaces ds = ds"
    using g(3) by (auto simp: replace_spaces_def filter_id_conv)
  have s: "valid_single_argument ?v
           = (if length ds \<le> int_max_str_digits
              then Inr (lo \<le> int (decimal ds) \<and> int (decimal ds) \<le> hi)
              else Inl ValueError)"
    using assms(1) nm
    by (simp add: valid_single_argument_def p t b r getitem_def assms(4,5)
        py_int_digits [OF assms(2,3)])
  show ?thesis
    by (simp add: RedshiftDatatype_is_valid_def w s d)
qed

lemma one_argument_max:
  assumes "k \<in> set one_optional_arg" and "aliases k = Some a" and "str_ranges a = Some (lo, hi)"
  shows "RedshiftDatatype_is_valid (VStr (k @ ''(MAX)'')) = Inr True"
proof -
  let ?v = "k @ ''(MAX)''"
  from assms(1) have k: "k \<noteq> []" "list_all is_alpha_or_space k" "k \<notin> set two_optional_args"
    by (simp_all add: one_optional_arg_shape)
  have t: "type_of_value ?v = Inr k"
    using type_of_value_prefix [OF k(2), of "''MAX)''"] by simp
  have b: "search_bracket_group ?v = Some ''MAX''"
    using search_bracket_group_prefix [OF k(2), of "''MAX''" "[]"] by simp
  have d: "valid_double_argument ?v = Inr None"
    using k(3) by (simp add: valid_double_argument_def t)
  have s: "valid_single_argument ?v = Inr True"
    using assms(1) patterns_max [OF k(1,2)]
    by (simp add: valid_single_argument_def t b replace_spaces_def getitem_def assms(2,3))
  show ?thesis
    by (simp add: RedshiftDatatype_is_valid_def s d)
qed

section \<open>Properties of the Redshift datatype validator\<close>

text \<open>
  C1: the predicate is to return False, not raise, on a string that denotes no valid
  datatype. On \<open>DECIMAL(MAX)\<close> it raises: the two-argument pattern admits \<open>MAX\<close>, the
  keyword is one of those with two arguments, and \<open>int\<close> is then applied to \<open>MAX\<close>.
\<close>

theorem decimal_max_raises:
  "RedshiftDatatype_is_valid (VStr ''DECIMAL(MAX)'') = Inl ValueError"
  by code_simp

text \<open>
  C2: for all numbers \<open>p\<close> and \<open>s\<close>, the strings \<open>DECIMAL(p,s)\<close> and \<open>NUMERIC(p,s)\<close> are
  accepted exactly when \<open>1 \<le> p \<le> 38\<close>, \<open>0 \<le> s \<le> 37\<close> and \<open>s < p\<close>. While neither number has
  more than 4300 digits the predicate returns that condition; beyond, \<open>int\<close> raises ValueError
  and nothing is accepted. \<open>DECIMAL(10,12)\<close> is rejected and \<open>DECIMAL(10,5)\<close> accepted.
\<close>

theorem decimal_precision_scale:
  "(RedshiftDatatype_is_valid (VStr (''DECIMAL('' @ str_of_nat p @ '','' @ str_of_nat s @ '')''))
      = Inr True \<longleftrightarrow> 1 \<le> p \<and> p \<le> 38 \<and> 0 \<le> s \<and> s \<le> 37 \<and> s < p)
   \<and> (RedshiftDatatype_is_valid (VStr (''NUMERIC('' @ str_of_nat p @ '','' @ str_of_nat s @ '')''))
      = Inr True \<longleftrightarrow> 1 \<le> p \<and> p \<le> 38 \<and> 0 \<le> s \<and> s \<le> 37 \<and> s < p)
   \<and> RedshiftDatatype_is_valid (VStr (''DECIMAL('' @ str_of_nat p @ '','' @ str_of_nat s @ '')''))
     = (if length (str_of_nat p) \<le> 4300 \<and> length (str_of_nat s) \<le> 4300
        then Inr (1 \<le> p \<and> p \<le> 38 \<and> 0 \<le> s \<and> s \<le> 37 \<and> s < p) else Inl ValueError)
   \<and> RedshiftDatatype_is_valid (VStr (''NUMERIC('' @ str_of_nat p @ '','' @ str_of_nat s @ '')''))
     = (if length (str_of_nat p) \<le> 4300 \<and> length (str_of_nat s) \<le> 4300
        then Inr (1 \<le> p \<and> p \<le> 38 \<and> 0 \<le> s \<and> s \<le> 37 \<and> s < p) else Inl ValueError)
   \<and> RedshiftDatatype_is_valid (VStr ''DECIMAL(10,12)'') = Inr False
   \<and> RedshiftDatatype_is_valid (VStr ''DECIMAL(10,5)'') = Inr True"
proof -
  let ?ok = "1 \<le> p \<and> p \<le> 38 \<and> 0 \<le> s \<and> s \<le> 37 \<and> s < p"
  let ?short = "length (str_of_nat p) \<le> 4300 \<and> length (str_of_nat s) \<le> 4300"
  have d: "str_of_nat n \<noteq> []" "list_all is_digit (str_of_nat n)" for n
    by (simp_all add: str_of_nat_digits)
  have r: "RedshiftDatatype_is_valid (VStr (k @ CHR ''('' # str_of_nat p @ CHR '','' # str_of_nat s @ '')''))
        = (if ?short then Inr ?ok else Inl ValueError)"
    if "k \<in> set two_optional_args" for k
    using two_arguments_digits [OF that d d, of p s]
    by (simp add: decimal_str_of_nat int_max_str_digits_def)
  have short: ?short if ?ok
  proof -
    from that have "p < 10 ^ 2" "s < 10 ^ 2" by simp_all
    then have "length (str_of_nat p) \<le> 2" "length (str_of_nat s) \<le> 2"
      by (simp_all add: str_of_nat_length)
    then show ?thesis by simp
  qed
  have acc: "((if ?short then Inr ?ok else Inl ValueError) = (Inr True :: error + bool)) = ?ok"
    using short by auto
  have g: "RedshiftDatatype_is_valid (VStr (''DECIMAL('' @ str_of_nat p @ '','' @ str_of_nat s @ '')''))
        = (if ?short then Inr ?ok else Inl ValueError)"
    "RedshiftDatatype_is_valid (VStr (''NUMERIC('' @ str_of_nat p @ '','' @ str_of_nat s @ '')''))
        = (if ?short then Inr ?ok else Inl ValueError)"
    using r [of "''DECIMAL''"] r [of "''NUMERIC''"] by (simp_all add: two_optional_args_def)
  have a: "RedshiftDatatype_is_valid (VStr ''DECIMAL(10,12)'') = Inr False"
    by code_simp
  have b: "RedshiftDatatype_is_valid (VStr ''DECIMAL(10,5)'') = Inr True"
    by code_simp
  show ?thesis
    unfolding g acc using a b by simp
qed

text \<open>
  C3: for a character-type keyword \<open>K\<close> and a number \<open>n\<close>, \<open>K(MAX)\<close> is accepted, and \<open>K(n)\<close>
  is accepted exactly when \<open>n\<close> lies in the range of the alias of \<open>K\<close>: 1 to 4096 for
  \<open>CHAR\<close>, \<open>CHARACTER\<close>, \<open>BPCHAR\<close> and \<open>NCHAR\<close>, 1 to 65535 for \<open>VARCHAR\<close>,
  \<open>CHARACTER VARYING\<close> and \<open>NVARCHAR\<close>. While \<open>n\<close> has no more than 4300 digits the predicate
  returns that condition; beyond, \<open>int\<close> raises ValueError and the string is not accepted.
  These seven are all the keywords with one optional argument.
\<close>

theorem character_length_argument:
  "(K \<in> {''CHAR'', ''CHARACTER'', ''BPCHAR'', ''NCHAR''} \<longrightarrow>
      (RedshiftDatatype_is_valid (VStr (K @ ''('' @ str_of_nat n @ '')'')) = Inr True
         \<longleftrightarrow> 1 \<le> n \<and> n \<le> 4096)
      \<and> RedshiftDatatype_is_valid (VStr (K @ ''('' @ str_of_nat n @ '')''))
        = (if length (str_of_nat n) \<le> 4300 then Inr (1 \<le> n \<and> n \<le> 4096) else Inl ValueError)
      \<and> RedshiftDatatype_is_valid (VStr (K @ ''(MAX)'')) = Inr True)
   \<and> (K \<in> {''VARCHAR'', ''CHARACTER VARYING'', ''NVARCHAR''} \<longrightarrow>
      (RedshiftDatatype_is_valid (VStr (K @ ''('' @ str_of_nat n @ '')'')) = Inr True
         \<longleftrightarrow> 1 \<le> n \<and> n \<le> 65535)
      \<and> RedshiftDatatype_is_valid (VStr (K @ ''('' @ str_of_nat n @ '')''))
        = (if length (str_of_nat n) \<le> 4300 then Inr (1 \<le> n \<and> n \<le> 65535) else Inl ValueError)
      \<and> RedshiftDatatype_is_valid (VStr (K @ ''(MAX)'')) = Inr True)
   \<and> set one_optional_arg
      = {''CHAR'', ''CHARACTER'', ''BPCHAR'', ''NCHAR''} \<union> {''VARCHAR'', ''CHARACTER VARYING'', ''NVARCHAR''}"
proof -
  let ?short = "length (str_of_nat n) \<le> 4300"
  have d: "str_of_nat n \<noteq> []" "list_all is_digit (str_of_nat n)"
    by (simp_all add: str_of_nat_digits)
  have short: ?short if "n \<le> 65535"
  proof -
    from that have "n < 10 ^ 5" by simp
    then have "length (str_of_nat n) \<le> 5" by (simp add: str_of_nat_length)
    then show ?thesis by simp
  qed
  have acc: "((if ?short then Inr (1 \<le> n \<and> n \<le> m) else Inl ValueError) = (Inr True :: error + bool))
             = (1 \<le> n \<and> n \<le> m)" if "m \<le> 65535" for m
    using short that by auto
  have c: "(RedshiftDatatype_is_valid (VStr (K @ ''('' @ str_of_nat n @ '')'')) = Inr True
         \<longleftrightarrow> 1 \<le> n \<and> n \<le> 4096)
      \<and> RedshiftDatatype_is_valid (VStr (K @ ''('' @ str_of_nat n @ '')''))
        = (if ?short then Inr (1 \<le> n \<and> n \<le> 4096) else Inl ValueError)
      \<and> RedshiftDatatype_is_valid (VStr (K @ ''(MAX)'')) = Inr True"
    if k: "K \<in> {''CHAR'', ''CHARACTER'', ''BPCHAR'', ''NCHAR''}"
  proof -
    from k have 1: "K \<in> set one_optional_arg" and 2: "aliases K = Some ''CHAR''"
      by (auto simp: one_optional_arg_def aliases_def)
    have 3: "str_ranges ''CHAR'' = Some (1, 4096)" by (simp add: str_ranges_def)
    have r: "RedshiftDatatype_is_valid (VStr (K @ ''('' @ str_of_nat n @ '')''))
        = (if ?short then Inr (1 \<le> n \<and> n \<le> 4096) else Inl ValueError)"
      using one_argument_digits [OF 1 d 2 3]
      by (simp add: decimal_str_of_nat int_max_str_digits_def)
    show ?thesis
      unfolding r using acc [of 4096] one_argument_max [OF 1 2 3] by simp
  qed
  have v: "(RedshiftDatatype_is_valid (VStr (K @ ''('' @ str_of_nat n @ '')'')) = Inr True
         \<longleftrightarrow> 1 \<le> n \<and> n \<le> 65535)
      \<and> RedshiftDatatype_is_valid (VStr (K @ ''('' @ str_of_nat n @ '')''))
        = (if ?short then Inr (1 \<le> n \<and> n \<le> 65535) else Inl ValueError)
      \<and> RedshiftDatatype_is_valid (VStr (K @ ''(MAX)'')) = Inr True"
    if k: "K \<in> {''VARCHAR'', ''CHARACTER VARYING'', ''NVARCHAR''}"
  proof -
    from k have 1: "K \<in> set one_optional_arg" and 2: "aliases K = Some ''VARCHAR''"
      by (auto simp: one_optional_arg_def aliases_def)
    have 3: "str_ranges ''VARCHAR'' = Some (1, 65535)" by (simp add: str_ranges_def)
    have r: "RedshiftDatatype_is_valid (VStr (K @ ''('' @ str_of_nat n @ '')''))
        = (if ?short then Inr (1 \<le> n \<and> n \<le> 65535) else Inl ValueError)"
      using one_argument_digits [OF 1 d 2 3]
      by (simp add: decimal_str_of_nat int_max_str_digits_def)
    show ?thesis
      unfolding r using acc [of 65535] one_argument_max [OF 1 2 3] by simp
  qed
  have s: "set one_optional_arg
      = {''CHAR'', ''CHARACTER'', ''BPCHAR'', ''NCHAR''} \<union> {''VARCHAR'', ''CHARACTER VARYING'', ''NVARCHAR''}"
    by (auto simp: one_optional_arg_def)
  from c v s show ?thesis by blast
qed

lemma digit_char_values:
  "digit_char 0 = CHR ''0''" "digit_char (Suc 0) = CHR ''1''" "digit_char 2 = CHR ''2''"
  "digit_char 3 = CHR ''3''" "digit_char 4 = CHR ''4''" "digit_char 5 = CHR ''5''"
  "digit_char 6 = CHR ''6''" "digit_char 7 = CHR ''7''" "digit_char 8 = CHR ''8''"
  "digit_char 9 = CHR ''9''"
  by code_simp+

theorem character_length_argument_witness:
  "''VARCHAR'' \<in> {''VARCHAR'', ''CHARACTER VARYING'', ''NVARCHAR''}
   \<and> RedshiftDatatype_is_valid (VStr ''VARCHAR(256)'') = Inr True
   \<and> RedshiftDatatype_is_valid (VStr ''VARCHAR(100000)'') = Inr False
   \<and> RedshiftDatatype_is_valid (VStr ''VARCHAR(MAX)'') = Inr True"
proof -
  have a: "str_of_nat 256 = ''256''" "str_of_nat 100000 = ''100000''"
    by (simp_all add: str_of_nat.simps digit_char_values)
  show ?thesis
    using character_length_argument [of "''VARCHAR''" 256]
      character_length_argument [of "''VARCHAR''" 100000]
    by (simp add: a)
qed

section \<open>Properties of the regex validator\<close>

lemma any_match_iff: "any_match m rs s \<longleftrightarrow> (\<exists>r\<in>set rs. m r s)"
  by (induction rs) auto

lemma compile_all_result:
  "compile_all valid_re fl args = Inr rs \<Longrightarrow>
   (\<forall>r\<in>set rs. flags r = fl)
   \<and> map pattern rs = List.map_filter (\<lambda>a. case a of VStr s \<Rightarrow> Some s | _ \<Rightarrow> None) args"
proof (induction args arbitrary: rs)
  case Nil
  then show ?case by (simp add: map_filter_simps)
next
  case (Cons a args)
  show ?case
  proof (cases a)
    case (VStr s)
    with Cons.prems obtain r rs' where r: "re_compile valid_re s fl = Inr r"
      and rs': "compile_all valid_re fl args = Inr rs'" and rs: "rs = r # rs'"
      by (auto simp: isstr_def split: sum.splits)
    from r have "flags r = fl" "pattern r = s"
      by (auto simp: re_compile_def split: if_splits)
    with Cons.IH [OF rs'] rs VStr show ?thesis by (simp add: map_filter_simps)
  qed (use Cons in \<open>auto simp: isstr_def map_filter_simps\<close>)
qed

lemma flags_loop_regex_flags:
  "kw ''ignore_case'' = kwargs ''ignore_case'' \<Longrightarrow> kw ''multiline'' = kwargs ''multiline'' \<Longrightarrow>
   kw ''dotall'' = kwargs ''dotall'' \<Longrightarrow>
   fst (flags_loop regex_flags 0 kw)
   = (if option_set kwargs ''ignore_case'' then re_I else 0)
     OR (if option_set kwargs ''multiline'' then re_M else 0)
     OR (if option_set kwargs ''dotall'' then re_S else 0)"
  by (simp add: regex_flags_def pop_def option_set_def or.assoc split: option.splits)


text \<open>
  C4: the predicate of a \<open>regex\<close> validator holds of a value exactly when the value is a
  string that one of the compiled patterns matches; and every pattern compiled by the
  initialiser carries the flags of the options \<open>ignore_case\<close>, \<open>multiline\<close> and \<open>dotall\<close>
  that were given a true value, combined by bitwise or. The patterns are the string
  arguments, in their order.
\<close>

theorem regex_any_pattern_and_flags:
  "(Regex_is_valid re_match self v
      \<longleftrightarrow> (\<exists>s. v = VStr s \<and> (\<exists>r\<in>set (regexes self). re_match r s)))
   \<and> (Regex_init valid_re args kwargs = Inr (self', kwargs') \<longrightarrow>
        (\<forall>r\<in>set (regexes self').
            flags r = (if option_set kwargs ''ignore_case'' then re_I else 0)
                      OR (if option_set kwargs ''multiline'' then re_M else 0)
                      OR (if option_set kwargs ''dotall'' then re_S else 0))
        \<and> map pattern (regexes self')
            = List.map_filter (\<lambda>a. case a of VStr s \<Rightarrow> Some s | _ \<Rightarrow> None) args)"
proof (intro conjI impI)
  show "Regex_is_valid re_match self v
      \<longleftrightarrow> (\<exists>s. v = VStr s \<and> (\<exists>r\<in>set (regexes self). re_match r s))"
    by (cases v) (simp_all add: Regex_is_valid_def isstr_def any_match_iff)
next
  assume init: "Regex_init valid_re args kwargs = Inr (self', kwargs')"
  obtain nm kw1 where p: "pop kwargs ''name'' VNone = (nm, kw1)" by fastforce
  obtain fl kw2 where f: "flags_loop regex_flags 0 kw1 = (fl, kw2)" by fastforce
  from p have same: "kw1 ''ignore_case'' = kwargs ''ignore_case''"
    "kw1 ''multiline'' = kwargs ''multiline''" "kw1 ''dotall'' = kwargs ''dotall''"
    by (auto simp: pop_def split: option.splits)
  from init p f have c: "compile_all valid_re fl args = Inr (regexes self')"
    by (auto simp: Regex_init_def split: sum.splits)
  from flags_loop_regex_flags [OF same] f
  have fl: "fl = (if option_set kwargs ''ignore_case'' then re_I else 0)
                 OR (if option_set kwargs ''multiline'' then re_M else 0)
                 OR (if option_set kwargs ''dotall'' then re_S else 0)"
    by simp
  from compile_all_result [OF c] fl
  show "\<forall>r\<in>set (regexes self').
            flags r = (if option_set kwargs ''ignore_case'' then re_I else 0)
                      OR (if option_set kwargs ''multiline'' then re_M else 0)
                      OR (if option_set kwargs ''dotall'' then re_S else 0)"
    by simp
  from compile_all_result [OF c]
  show "map pattern (regexes self')
            = List.map_filter (\<lambda>a. case a of VStr s \<Rightarrow> Some s | _ \<Rightarrow> None) args"
    by simp
qed

theorem regex_any_pattern_and_flags_witness:
  "Regex_init (\<lambda>p. True) [VStr ''a+'', VInt 3, VStr ''b'']
      [''ignore_case'' \<mapsto> VBool True, ''dotall'' \<mapsto> VInt 1]
    = Inr (\<lparr>regex_name = VNone,
             regexes = [\<lparr>pattern = ''a+'', flags = 18\<rparr>, \<lparr>pattern = ''b'', flags = 18\<rparr>]\<rparr>,
           Map.empty)
   \<and> Regex_is_valid (\<lambda>r s. pattern r = s)
        \<lparr>regex_name = VNone,
          regexes = [\<lparr>pattern = ''a+'', flags = 18\<rparr>, \<lparr>pattern = ''b'', flags = 18\<rparr>]\<rparr> (VStr ''b'')"
proof -
  let ?self = "\<lparr>regex_name = VNone,
          regexes = [\<lparr>pattern = ''a+'', flags = 18\<rparr>, \<lparr>pattern = ''b'', flags = 18\<rparr>]\<rparr>"
  let ?kw = "[''ignore_case'' \<mapsto> VBool True, ''dotall'' \<mapsto> VInt 1]"
  have i: "Regex_init (\<lambda>p. True) [VStr ''a+'', VInt 3, VStr ''b''] ?kw = Inr (?self, Map.empty)"
    by (simp add: Regex_init_def pop_def regex_flags_def isstr_def re_compile_def
        re_I_def re_M_def re_S_def fun_eq_iff)
  from regex_any_pattern_and_flags
    [of "\<lambda>r s. pattern r = s" ?self "VStr ''b''" "\<lambda>p. True" "[VStr ''a+'', VInt 3, VStr ''b'']" ?kw
      ?self Map.empty] i
  show ?thesis
    by (simp add: option_set_def re_I_def re_S_def)
qed

section \<open>Properties of reading and validating data\<close>

text \<open>
  C6: when the file is parsed (no document is handed in directly) and yields no document,
  \<open>make_data\<close> returns the one pair of the empty mapping and the path; when it yields a
  non-empty list, \<open>make_data\<close> returns each document paired with the path, in order.
\<close>

theorem make_data_documents:
  assumes "\<not> truth raw_data_arg"
  shows "(parse_file path parser = Inr [] \<longrightarrow>
            make_data parse_file path parser raw_data_arg = Inr [(VDict [], path)])
         \<and> (\<forall>docs. docs \<noteq> [] \<and> parse_file path parser = Inr docs \<longrightarrow>
            make_data parse_file path parser raw_data_arg = Inr (map (\<lambda>d. (d, path)) docs))"
  using assms by (simp add: make_data_def)

theorem make_data_documents_witness:
  "\<not> truth VNone
   \<and> make_data (\<lambda>p q. if p = ''empty.yaml'' then Inr [] else (Inr [VInt 1, VStr ''x''] :: error + value list))
        ''empty.yaml'' ''PyYAML'' VNone = Inr [(VDict [], ''empty.yaml'')]
   \<and> make_data (\<lambda>p q. if p = ''empty.yaml'' then Inr [] else (Inr [VInt 1, VStr ''x''] :: error + value list))
        ''two.yaml'' ''PyYAML'' VNone = Inr [(VInt 1, ''two.yaml''), (VStr ''x'', ''two.yaml'')]"
proof -
  let ?pf = "\<lambda>p q. if p = ''empty.yaml'' then Inr [] else (Inr [VInt 1, VStr ''x''] :: error + value list)"
  have n: "\<not> truth VNone" by simp
  from make_data_documents [OF n, of ?pf "''empty.yaml''" "''PyYAML''"]
    make_data_documents [OF n, of ?pf "''two.yaml''" "''PyYAML''"]
  show ?thesis by simp
qed




section \<open>Properties of the registry\<close>

lemma key_determines_class:
  "(tag v = Some k \<or> name v = k) \<Longrightarrow> (tag w = Some k \<or> name w = k) \<Longrightarrow> v = w"
  by (cases v; cases w; simp; fastforce)

lemma registry_loop_keyed:
  "registry_loop vs reg = Inr reg' \<Longrightarrow> keyed reg \<Longrightarrow> keyed reg'"
proof (induction vs arbitrary: reg)
  case Nil
  then show ?case by simp
next
  case (Cons v vs)
  from Cons.prems(1) obtain t where t: "tag v = Some t"
    and l: "registry_loop vs ((reg(t \<mapsto> v))(name v \<mapsto> v)) = Inr reg'"
    by (auto split: option.splits)
  from Cons.prems(2) t have "keyed ((reg(t \<mapsto> v))(name v \<mapsto> v))"
    by (auto simp: keyed_def)
  with Cons.IH [OF l] show ?case .
qed

lemma registry_loop_dom:
  "registry_loop vs reg = Inr reg' \<Longrightarrow>
   dom reg \<subseteq> dom reg' \<and> (\<forall>v\<in>set vs. name v \<in> dom reg' \<and> (\<forall>t. tag v = Some t \<longrightarrow> t \<in> dom reg'))"
proof (induction vs arbitrary: reg)
  case Nil
  then show ?case by simp
next
  case (Cons v vs)
  from Cons.prems(1) obtain t where t: "tag v = Some t"
    and l: "registry_loop vs ((reg(t \<mapsto> v))(name v \<mapsto> v)) = Inr reg'"
    by (auto split: option.splits)
  have d: "dom ((reg(t \<mapsto> v))(name v \<mapsto> v)) = insert (name v) (insert t (dom reg))"
    by simp
  from Cons.IH [OF l]
  have 1: "insert (name v) (insert t (dom reg)) \<subseteq> dom reg'"
    and 2: "\<forall>v\<in>set vs. name v \<in> dom reg' \<and> (\<forall>t. tag v = Some t \<longrightarrow> t \<in> dom reg')"
    unfolding d by simp_all
  from 1 2 t show ?case by auto
qed

lemma registry_loop_returns:
  "Cls_Validator \<notin> set vs \<Longrightarrow> \<exists>reg'. registry_loop vs reg = Inr reg'"
proof (induction vs arbitrary: reg)
  case Nil
  show ?case by simp
next
  case (Cons v vs)
  then have "v \<noteq> Cls_Validator" by auto
  then obtain t where "tag v = Some t" by (cases v) simp_all
  with Cons show ?case by simp
qed

lemma registry_loop_entries:
  assumes "Cls_Validator \<notin> set vs" and "V \<in> set vs"
  shows "\<exists>reg t. registry_loop vs Map.empty = Inr reg \<and> tag V = Some t
           \<and> reg t = Some V \<and> reg (name V) = Some V"
proof -
  from registry_loop_returns [OF assms(1)]
  obtain reg where reg: "registry_loop vs Map.empty = Inr reg" by blast
  from assms have "V \<noteq> Cls_Validator" by auto
  then obtain t where t: "tag V = Some t" by (cases V) simp_all
  have k: "keyed reg"
    by (rule registry_loop_keyed [OF reg]) (simp add: keyed_def)
  from registry_loop_dom [OF reg] assms(2) t
  obtain a b where a: "reg t = Some a" and b: "reg (name V) = Some b" by blast
  from k a have "tag a = Some t \<or> name a = t" by (simp add: keyed_def)
  with t have "a = V" using key_determines_class [of a t V] by simp
  moreover from k b have "tag b = Some (name V) \<or> name b = name V" by (simp add: keyed_def)
  then have "b = V" using key_determines_class [of b "name V" V] by simp
  ultimately show ?thesis using reg t a b by simp
qed

lemma get_subclasses_all: "set (get_subclasses Cls_Validator) = UNIV - {Cls_Validator}"
proof -
  have "get_subclasses Cls_Validator
        = [Cls_String, Cls_Number, Cls_Integer, Cls_Boolean, Cls_Enum, Cls_Day, Cls_Timestamp,
           Cls_Map, Cls_RedshiftDatatype, Cls_List, Cls_Include, Cls_Any, Cls_Null, Cls_Regex,
           Cls_Mac, Cls_Ip]"
    by code_simp
  moreover have "x \<noteq> Cls_Validator \<longleftrightarrow> x \<in> set [Cls_String, Cls_Number, Cls_Integer, Cls_Boolean, Cls_Enum, Cls_Day, Cls_Timestamp,
           Cls_Map, Cls_RedshiftDatatype, Cls_List, Cls_Include, Cls_Any, Cls_Null, Cls_Regex,
           Cls_Mac, Cls_Ip]" for x
    by (cases x) simp_all
  ultimately show ?thesis by auto
qed

text \<open>
  C8: whatever list of validator classes the registry is filled from, each class in it is
  found under its tag and under its name; and the registry of the module, filled from the
  subclasses of \<open>Validator\<close>, holds every class of the module, \<open>Mac\<close> included, under both.
\<close>

theorem registry_resolves_tag_and_name:
  "(V \<in> set vs \<and> Cls_Validator \<notin> set vs \<longrightarrow>
      (\<exists>reg t. registry_loop vs Map.empty = Inr reg \<and> tag V = Some t
         \<and> reg t = Some V \<and> reg (name V) = Some V))
   \<and> (V \<noteq> Cls_Validator \<longrightarrow>
      (\<exists>reg t. DefaultValidators = Inr reg \<and> tag V = Some t
         \<and> reg t = Some V \<and> reg (name V) = Some V))"
proof (intro conjI impI)
  assume "V \<in> set vs \<and> Cls_Validator \<notin> set vs"
  then show "\<exists>reg t. registry_loop vs Map.empty = Inr reg \<and> tag V = Some t
         \<and> reg t = Some V \<and> reg (name V) = Some V"
    using registry_loop_entries [of vs V] by simp
next
  assume "V \<noteq> Cls_Validator"
  then have "V \<in> set (get_subclasses Cls_Validator)"
    and "Cls_Validator \<notin> set (get_subclasses Cls_Validator)"
    by (simp_all add: get_subclasses_all)
  from registry_loop_entries [OF this(2,1)]
  show "\<exists>reg t. DefaultValidators = Inr reg \<and> tag V = Some t
         \<and> reg t = Some V \<and> reg (name V) = Some V"
    by (simp add: DefaultValidators_def)
qed

theorem registry_resolves_tag_and_name_witness:
  "Cls_Mac \<noteq> Cls_Validator
   \<and> Cls_Mac \<in> set (get_subclasses Cls_Validator)
   \<and> (\<exists>reg. DefaultValidators = Inr reg \<and> reg ''mac'' = Some Cls_Mac \<and> reg ''Mac'' = Some Cls_Mac)"
proof -
  have "Cls_Mac \<in> set (get_subclasses Cls_Validator)" by (simp add: get_subclasses_all)
  then show ?thesis
    using registry_resolves_tag_and_name [of Cls_Mac "get_subclasses Cls_Validator"] by auto
qed

section \<open>Properties of the stateless validators\<close>

text \<open>
  C5: the type predicates of the \<open>any\<close> and \<open>include\<close> validators return True for every
  data value, whatever the validator instance holds.
\<close>

theorem any_include_always_valid:
  "Any_is_valid a v = True \<and> Include_is_valid i v = True"
  by (simp add: Any_is_valid_def Include_is_valid_def)

text \<open>
  C9: every boolean passes the \<open>int\<close> validator's type predicate (as it passes that of
  \<open>bool\<close>), and the \<open>num\<close> validator's predicate accepts booleans, integers and floats.
\<close>

theorem bool_passes_int_and_num:
  "Integer_is_valid (VBool b) = True \<and> Boolean_is_valid (VBool b) = True
   \<and> Number_is_valid (VBool b) = True \<and> Number_is_valid (VInt n) = True
   \<and> Number_is_valid (VFloat f) = True"
  by (simp add: Integer_is_valid_def Boolean_is_valid_def Number_is_valid_def)

text \<open>
  C10: no string satisfies the \<open>list\<close> validator's type predicate, although a string is a
  \<open>Sequence\<close>: the predicate's second conjunct excludes it.
\<close>

theorem list_rejects_strings:
  "List_is_valid (VStr s) = False \<and> isinstance (VStr s) [T_Sequence] = True"
  by (simp add: List_is_valid_def isstr_def)

end
